theory Spec2Isabelle
  imports Complex_Main "HOL-Library.Word" "HOL-Library.Log_Nat"
begin

section \<open>JavaScript values read by the handlers of \<^verbatim>\<open>src/server.js\<close>\<close>

text \<open>
  A JavaScript string is a sequence of 16-bit code units; \<^verbatim>\<open>length\<close>, \<^verbatim>\<open>split\<close>,
  \<^verbatim>\<open>trim\<close> and the regular expression of the ticket schema all work on code units.
  \<open>utf16\<close> writes an ASCII literal as such a string.
\<close>

type_synonym code_unit = "16 word"
type_synonym jsstring = "code_unit list"

definition utf16 :: "string \<Rightarrow> jsstring" where
  "utf16 s = map of_char s"

text \<open>
  A JavaScript number is an IEEE double: NaN, an infinity or a finite value, kept here
  as the rational it denotes. The negative zero is identified with zero: the handlers
  compare numbers with \<^verbatim>\<open><\<close>, \<^verbatim>\<open>></\<close>, \<^verbatim>\<open>Number.isInteger\<close> and the
  SameValueZero equality of \<^verbatim>\<open>Set\<close>, none of which tells the two zeros apart.
\<close>

datatype jsnum = NaN | Fin rat | PosInfinity | NegInfinity

definition isInteger :: "jsnum \<Rightarrow> bool" where
  "isInteger n = (case n of Fin q \<Rightarrow> of_int \<lfloor>q\<rfloor> = q | _ \<Rightarrow> False)"

definition js_less :: "jsnum \<Rightarrow> rat \<Rightarrow> bool" where
  \<comment> \<open>\<^verbatim>\<open>n < k\<close> for a finite constant \<open>k\<close>; false on NaN\<close>
  "js_less n k = (case n of Fin q \<Rightarrow> q < k | NegInfinity \<Rightarrow> True | _ \<Rightarrow> False)"

definition js_greater :: "jsnum \<Rightarrow> rat \<Rightarrow> bool" where
  \<comment> \<open>\<^verbatim>\<open>n > k\<close> for a finite constant \<open>k\<close>; false on NaN\<close>
  "js_greater n k = (case n of Fin q \<Rightarrow> k < q | PosInfinity \<Rightarrow> True | _ \<Rightarrow> False)"

subsection \<open>Rounding to the nearest double\<close>

definition pow2 :: "int \<Rightarrow> rat" where
  "pow2 k = (if 0 \<le> k then 2 ^ nat k else 1 / 2 ^ nat (- k))"

definition pow10 :: "int \<Rightarrow> rat" where
  "pow10 k = (if 0 \<le> k then 10 ^ nat k else 1 / 10 ^ nat (- k))"

definition ilog2 :: "rat \<Rightarrow> int" where
  \<comment> \<open>the binary exponent \<open>\<lfloor>log\<^sub>2 q\<rfloor>\<close> of a positive rational, from the bit lengths of
      its numerator and denominator\<close>
  "ilog2 q = (let (a, b) = quotient_of q;
                  k = int (floorlog 2 (nat a)) - int (floorlog 2 (nat b))
              in if pow2 k \<le> q then k else k - 1)"

definition round_half_even :: "rat \<Rightarrow> int" where
  "round_half_even x =
     (let f = \<lfloor>x\<rfloor>; d = x - of_int f
      in if d < 1 / 2 then f else if 1 / 2 < d then f + 1
         else if even f then f else f + 1)"

definition to_double :: "rat \<Rightarrow> jsnum" where
  \<comment> \<open>round to nearest, ties to even, with a 53-bit significand; exponents below
      \<open>-1022\<close> are subnormal, results from \<open>2\<^sup>1\<^sup>0\<^sup>2\<^sup>4\<close> on are infinite\<close>
  "to_double q =
     (if q = 0 then Fin 0
      else let a = \<bar>q\<bar>; e = ilog2 a;
               inf = (if 0 < q then PosInfinity else NegInfinity)
           in if 1024 \<le> e then inf
              else let ulp = pow2 (max e (- 1022) - 52);
                       m = round_half_even (a / ulp)
                   in if e = 1023 then (if m = 2 ^ 53 then inf
                                        else Fin (sgn q * of_int m * ulp))
                      else Fin (sgn q * of_int m * ulp))"

subsection \<open>\<^verbatim>\<open>Number(string)\<close>: the StringToNumber conversion\<close>

definition is_digit :: "code_unit \<Rightarrow> bool" where
  "is_digit c \<longleftrightarrow> 0x30 \<le> c \<and> c \<le> 0x39"

definition is_upper :: "code_unit \<Rightarrow> bool" where
  "is_upper c \<longleftrightarrow> 0x41 \<le> c \<and> c \<le> 0x5A"

definition is_lower :: "code_unit \<Rightarrow> bool" where
  "is_lower c \<longleftrightarrow> 0x61 \<le> c \<and> c \<le> 0x7A"

definition is_space :: "code_unit \<Rightarrow> bool" where
  \<comment> \<open>WhiteSpace and LineTerminator of ECMAScript: what \<^verbatim>\<open>trim\<close> and
      \<^verbatim>\<open>Number\<close> strip\<close>
  "is_space c \<longleftrightarrow>
     (0x09 \<le> c \<and> c \<le> 0x0D) \<or> c = 0x20 \<or> c = 0xA0 \<or> c = 0x1680 \<or>
     (0x2000 \<le> c \<and> c \<le> 0x200A) \<or> c = 0x2028 \<or> c = 0x2029 \<or> c = 0x202F \<or>
     c = 0x205F \<or> c = 0x3000 \<or> c = 0xFEFF"

definition trim :: "jsstring \<Rightarrow> jsstring" where
  "trim s = rev (dropWhile is_space (rev (dropWhile is_space s)))"

definition digit_val :: "code_unit \<Rightarrow> nat" where
  \<comment> \<open>the value of a digit of any base up to 16, and 16 for any other code unit\<close>
  "digit_val c =
     (if is_digit c then unat c - 0x30
      else if 0x41 \<le> c \<and> c \<le> 0x46 then unat c - 0x41 + 10
      else if 0x61 \<le> c \<and> c \<le> 0x66 then unat c - 0x61 + 10
      else 16)"

definition digits_val :: "nat \<Rightarrow> jsstring \<Rightarrow> nat" where
  "digits_val base ds = foldl (\<lambda>a c. base * a + digit_val c) 0 ds"

definition all_digits :: "nat \<Rightarrow> jsstring \<Rightarrow> bool" where
  \<comment> \<open>a non-empty run of digits of the base\<close>
  "all_digits base ds \<longleftrightarrow> ds \<noteq> [] \<and> list_all (\<lambda>c. digit_val c < base) ds"

definition exponent_part :: "jsstring \<Rightarrow> int option" where
  \<comment> \<open>ExponentPart, optional: \<^verbatim>\<open>e\<close> or \<^verbatim>\<open>E\<close>, an optional sign, decimal digits\<close>
  "exponent_part s =
     (case s of
        [] \<Rightarrow> Some 0
      | c # r \<Rightarrow>
          if c = 0x65 \<or> c = 0x45 then
            (case r of
               [] \<Rightarrow> None
             | d # r' \<Rightarrow>
                 if d = 0x2B then
                   (if all_digits 10 r' then Some (int (digits_val 10 r')) else None)
                 else if d = 0x2D then
                   (if all_digits 10 r' then Some (- int (digits_val 10 r')) else None)
                 else if all_digits 10 r then Some (int (digits_val 10 r)) else None)
          else None)"

definition unsigned_decimal :: "jsstring \<Rightarrow> rat option" where
  \<comment> \<open>StrUnsignedDecimalLiteral without \<^verbatim>\<open>Infinity\<close>: its exact mathematical value\<close>
  "unsigned_decimal s =
     (let ip = takeWhile is_digit s; r1 = dropWhile is_digit s;
          has_dot = (r1 \<noteq> [] \<and> hd r1 = 0x2E);
          fp = (if has_dot then takeWhile is_digit (tl r1) else []);
          r2 = (if has_dot then dropWhile is_digit (tl r1) else r1)
      in if ip = [] \<and> fp = [] then None
         else (case exponent_part r2 of
                 None \<Rightarrow> None
               | Some e \<Rightarrow>
                   Some (of_nat (digits_val 10 (ip @ fp)) * pow10 (e - int (length fp)))))"

definition str_decimal :: "jsstring \<Rightarrow> jsnum" where
  \<comment> \<open>StrDecimalLiteral: an optional sign, then \<^verbatim>\<open>Infinity\<close> or a decimal literal\<close>
  "str_decimal s =
     (let neg = (s \<noteq> [] \<and> hd s = 0x2D);
          u = (if s \<noteq> [] \<and> (hd s = 0x2B \<or> hd s = 0x2D) then tl s else s)
      in if u = utf16 ''Infinity'' then (if neg then NegInfinity else PosInfinity)
         else (case unsigned_decimal u of
                 None \<Rightarrow> NaN
               | Some v \<Rightarrow> to_double (if neg then - v else v)))"

definition non_decimal :: "jsstring \<Rightarrow> jsnum option" where
  \<comment> \<open>NonDecimalIntegerLiteral: \<^verbatim>\<open>0x\<close>, \<^verbatim>\<open>0o\<close> or \<^verbatim>\<open>0b\<close> (either case) and digits\<close>
  "non_decimal s =
     (case s of
        z # p # ds \<Rightarrow>
          if z \<noteq> 0x30 then None
          else let base = (if p = 0x78 \<or> p = 0x58 then 16
                           else if p = 0x6F \<or> p = 0x4F then 8
                           else if p = 0x62 \<or> p = 0x42 then 2 else 0)
               in if base = 0 then None
                  else if all_digits base ds
                       then Some (to_double (of_nat (digits_val base ds)))
                       else Some NaN
      | _ \<Rightarrow> None)"

definition Number :: "jsstring \<Rightarrow> jsnum" where
  "Number s =
     (let t = trim s
      in if t = [] then Fin 0
         else (case non_decimal t of Some n \<Rightarrow> n | None \<Rightarrow> str_decimal t))"

text \<open>
  \<^verbatim>\<open>Number.prototype.toString\<close> on a non-negative integer below \<open>10\<^sup>2\<^sup>1\<close>: its decimal
  digits. The handlers print numbers only through \<^verbatim>\<open>parsed.numbers.join(',')\<close>, after
  the schema has checked every element to be an integer from 1 to 45.
\<close>

fun decimal :: "nat \<Rightarrow> jsstring" where
  "decimal n =
     (if n < 10 then [of_nat (0x30 + n)]
      else decimal (n div 10) @ [of_nat (0x30 + n mod 10)])"

declare decimal.simps [simp del]

subsection \<open>\<^verbatim>\<open>split(',')\<close> and \<^verbatim>\<open>join(',')\<close>\<close>

fun split_comma :: "jsstring \<Rightarrow> jsstring list" where
  "split_comma [] = [[]]"
| "split_comma (c # cs) =
     (if c = 0x2C then [] # split_comma cs
      else (case split_comma cs of
              [] \<Rightarrow> [[c]]
            | t # ts \<Rightarrow> (c # t) # ts))"

fun join_comma :: "jsstring list \<Rightarrow> jsstring" where
  "join_comma [] = []"
| "join_comma [t] = t"
| "join_comma (t # u # ts) = t @ 0x2C # join_comma (u # ts)"

section \<open>The tables of the schema\<close>

text \<open>
  The three tables of the migration (\<^verbatim>\<open>src/unnamed/part_000\<close>), rows in insertion
  order. \<^verbatim>\<open>createdAt\<close> is written by the database (\<^verbatim>\<open>DEFAULT CURRENT_TIMESTAMP\<close>)
  and read by no handler; it is left out. \<^verbatim>\<open>Round.id\<close> and \<^verbatim>\<open>Draw.id\<close> are
  \<^verbatim>\<open>SERIAL\<close>: the store keeps the last value each sequence has handed out, and the
  next row gets its successor (the 32-bit limit of the sequences is not modelled).
\<close>

record round =
  round_id :: nat
  isOpen :: bool

record ticket =
  ticket_id :: jsstring
  personalId :: jsstring
  numbersCsv :: jsstring
  ticket_roundId :: nat
  userSub :: "jsstring option"

record draw =
  draw_id :: nat
  numbers :: jsstring
  draw_roundId :: nat

record store =
  rounds :: "round list"
  tickets :: "ticket list"
  draws :: "draw list"
  round_seq :: nat
  draw_seq :: nat

definition empty_store :: store where
  "empty_store = \<lparr>rounds = [], tickets = [], draws = [], round_seq = 0, draw_seq = 0\<rparr>"

text \<open>
  A string reaches the database as UTF-8: a surrogate code unit that is not part of a
  pair is replaced by U+FFFD on the way, and PostgreSQL refuses a text that holds U+0000.
\<close>

definition is_high :: "code_unit \<Rightarrow> bool" where
  "is_high c \<longleftrightarrow> 0xD800 \<le> c \<and> c \<le> 0xDBFF"

definition is_low :: "code_unit \<Rightarrow> bool" where
  "is_low c \<longleftrightarrow> 0xDC00 \<le> c \<and> c \<le> 0xDFFF"

fun to_well_formed :: "jsstring \<Rightarrow> jsstring" where
  "to_well_formed (c # d # cs) =
     (if is_high c \<and> is_low d then c # d # to_well_formed cs
      else (if is_high c \<or> is_low c then 0xFFFD else c) # to_well_formed (d # cs))"
| "to_well_formed [c] = [if is_high c \<or> is_low c then 0xFFFD else c]"
| "to_well_formed [] = []"

datatype prisma_error =
  UniqueConstraintFailed | ForeignKeyConstraintFailed | InvalidByteSequence

definition round_create :: "store \<Rightarrow> bool \<Rightarrow> store" where
  \<comment> \<open>\<^verbatim>\<open>prisma.round.create({ data: { isOpen } })\<close>\<close>
  "round_create s b =
     s\<lparr>rounds := rounds s @ [\<lparr>round_id = Suc (round_seq s), isOpen = b\<rparr>],
       round_seq := Suc (round_seq s)\<rparr>"

definition ticket_create :: "store \<Rightarrow> ticket \<Rightarrow> prisma_error + store" where
  \<comment> \<open>\<^verbatim>\<open>prisma.ticket.create\<close>: \<^verbatim>\<open>Ticket_pkey\<close> and \<^verbatim>\<open>Ticket_roundId_fkey\<close>\<close>
  "ticket_create s t =
     (if list_ex (\<lambda>u. ticket_id u = ticket_id t) (tickets s) then Inl UniqueConstraintFailed
      else if \<not> list_ex (\<lambda>r. round_id r = ticket_roundId t) (rounds s)
        then Inl ForeignKeyConstraintFailed
      else Inr (s\<lparr>tickets := tickets s @ [t]\<rparr>))"

definition draw_create :: "store \<Rightarrow> nat \<Rightarrow> jsstring \<Rightarrow> prisma_error + store" where
  \<comment> \<open>\<^verbatim>\<open>prisma.draw.create\<close>: the text of \<^verbatim>\<open>numbers\<close> as the database takes it,
      \<^verbatim>\<open>Draw_roundId_key\<close> and \<^verbatim>\<open>Draw_roundId_fkey\<close>; a refused insert adds no row\<close>
  "draw_create s rid ns =
     (if 0 \<in> set ns then Inl InvalidByteSequence
      else if list_ex (\<lambda>d. draw_roundId d = rid) (draws s) then Inl UniqueConstraintFailed
      else if \<not> list_ex (\<lambda>r. round_id r = rid) (rounds s)
        then Inl ForeignKeyConstraintFailed
      else Inr (s\<lparr>draws := draws s @
                   [\<lparr>draw_id = Suc (draw_seq s), numbers = to_well_formed ns,
                     draw_roundId = rid\<rparr>],
                 draw_seq := Suc (draw_seq s)\<rparr>))"

definition draw_of :: "store \<Rightarrow> nat \<Rightarrow> draw option" where
  \<comment> \<open>the relation \<^verbatim>\<open>round.draw\<close> of \<^verbatim>\<open>include: { draw: true }\<close>\<close>
  "draw_of s rid = find (\<lambda>d. draw_roundId d = rid) (draws s)"

definition with_draw :: "store \<Rightarrow> round \<Rightarrow> round \<times> draw option" where
  "with_draw s r = (r, draw_of s (round_id r))"

definition getOpenRound :: "store \<Rightarrow> (round \<times> draw option) option" where
  \<comment> \<open>\<^verbatim>\<open>findFirst({ where: { isOpen: true }, include: { draw: true } })\<close>\<close>
  "getOpenRound s = map_option (with_draw s) (find isOpen (rounds s))"

definition getLastRound :: "store \<Rightarrow> (round \<times> draw option) option" where
  \<comment> \<open>\<^verbatim>\<open>findFirst({ orderBy: { id: 'desc' }, include: { draw: true } })\<close>\<close>
  "getLastRound s =
     (case rounds s of
        [] \<Rightarrow> None
      | r # rs \<Rightarrow>
          Some (with_draw s (foldl (\<lambda>m x. if round_id m < round_id x then x else m) r rs)))"

section \<open>The ticket schema\<close>

text \<open>
  A field of the request body as \<^verbatim>\<open>z.string()\<close> sees it: a string or anything else
  (\<^verbatim>\<open>undefined\<close> included). The body parsers give every request a body object.
\<close>

datatype jsfield = NotString | IsString jsstring

text \<open>
  The issues zod collects for the two fields. The three checks of \<^verbatim>\<open>personalId\<close> all
  run, each adding its issue: \<^verbatim>\<open>min(1)\<close>, \<^verbatim>\<open>max(20)\<close> and the regular expression
  \<^verbatim>\<open>/^[A-Za-z0-9]+$/\<close>.
\<close>

datatype zod_issue =
    PersonalIdNotString
  | PersonalIdEmpty
  | PersonalIdTooLong
  | PersonalIdNotAlnum
  | NumbersNotString

text \<open>
  What a handler answers with when it does not succeed, under the names of the
  specification:
  \<^item> \<open>AdmissionClosed\<close>: 403, \<^verbatim>\<open>Uplate nisu aktivne.\<close>
  \<^item> \<open>InvalidCount\<close>, \<open>InvalidRange\<close>, \<open>DuplicateNumbers\<close>: 400 with the message of the
    \<^verbatim>\<open>Error\<close> the transform of \<^verbatim>\<open>numbers\<close> throws;
  \<^item> \<open>ZodError\<close>: 400 with the issues of the \<^verbatim>\<open>ZodError\<close> that \<^verbatim>\<open>parse\<close> throws;
  \<^item> \<open>PersistenceFailure\<close>: 400 with the message of the error thrown by
    \<^verbatim>\<open>prisma.ticket.create\<close>;
  \<^item> \<open>BettingStillActive\<close>, \<open>NoRoundsExist\<close>, \<open>DrawAlreadyExists\<close>,
    \<open>MissingOrInvalidNumbers\<close>: the four 400 answers of \<^verbatim>\<open>/store-results\<close>;
  \<^item> \<open>NotFound\<close>: 404, of \<^verbatim>\<open>/t/:id\<close>;
  \<^item> \<open>Unhandled\<close>: an error thrown by \<^verbatim>\<open>prisma.draw.create\<close>, which
    \<^verbatim>\<open>/store-results\<close> does not catch (500).
\<close>

datatype error =
    AdmissionClosed
  | InvalidCount
  | InvalidRange
  | DuplicateNumbers
  | ZodError "zod_issue list"
  | PersistenceFailure prisma_error
  | BettingStillActive
  | NoRoundsExist
  | DrawAlreadyExists
  | MissingOrInvalidNumbers
  | NotFound
  | Unhandled prisma_error

definition is_alnum :: "code_unit \<Rightarrow> bool" where
  "is_alnum c \<longleftrightarrow> is_upper c \<or> is_lower c \<or> is_digit c"

definition personalId_issues :: "jsfield \<Rightarrow> zod_issue list" where
  "personalId_issues f =
     (case f of
        NotString \<Rightarrow> [PersonalIdNotString]
      | IsString p \<Rightarrow>
          (if length p < 1 then [PersonalIdEmpty] else []) @
          (if 20 < length p then [PersonalIdTooLong] else []) @
          (if p \<noteq> [] \<and> list_all is_alnum p then [] else [PersonalIdNotAlnum]))"

definition tokens :: "jsstring \<Rightarrow> jsstring list" where
  \<comment> \<open>\<^verbatim>\<open>s.split(',').map((v) => v.trim()).filter(Boolean)\<close>\<close>
  "tokens s = filter (\<lambda>v. v \<noteq> []) (map trim (split_comma s))"

definition parse_numbers :: "jsstring \<Rightarrow> jsnum list" where
  \<comment> \<open>the array \<^verbatim>\<open>arr\<close> of the transform: the tokens, each through \<^verbatim>\<open>Number\<close>\<close>
  "parse_numbers s = map Number (tokens s)"

definition in_range :: "jsnum \<Rightarrow> bool" where
  \<comment> \<open>the negation of \<^verbatim>\<open>!Number.isInteger(n) || n < 1 || n > 45\<close>\<close>
  "in_range n \<longleftrightarrow> \<not> (\<not> isInteger n \<or> js_less n 1 \<or> js_greater n 45)"

definition to_nat :: "jsnum \<Rightarrow> nat" where
  "to_nat n = (case n of Fin q \<Rightarrow> nat \<lfloor>q\<rfloor> | _ \<Rightarrow> 0)"

definition numbers_transform :: "jsstring \<Rightarrow> error + nat list" where
  \<comment> \<open>the transform of \<^verbatim>\<open>numbers\<close>; the array it returns holds integers from 1 to 45
      only, and is given as naturals\<close>
  "numbers_transform s =
     (let arr = parse_numbers s
      in if length arr < 6 \<or> 10 < length arr then Inl InvalidCount
         else if list_ex (\<lambda>n. \<not> in_range n) arr then Inl InvalidRange
         else if length (remdups arr) \<noteq> length arr then Inl DuplicateNumbers
         else Inr (map to_nat arr))"

definition ticketSchema_parse :: "jsfield \<Rightarrow> jsfield \<Rightarrow> error + jsstring \<times> nat list" where
  \<comment> \<open>\<^verbatim>\<open>ticketSchema.parse({ personalId, numbers })\<close>. zod parses the keys in the order
      of the schema and collects their issues; an \<^verbatim>\<open>Error\<close> thrown by a transform is not
      caught by zod and leaves \<^verbatim>\<open>parse\<close> at once, whatever issues were collected.\<close>
  "ticketSchema_parse pid nums =
     (let issues = personalId_issues pid
      in case nums of
           NotString \<Rightarrow> Inl (ZodError (issues @ [NumbersNotString]))
         | IsString s \<Rightarrow>
             (case numbers_transform s of
                Inl e \<Rightarrow> Inl e
              | Inr arr \<Rightarrow>
                  (case pid of
                     IsString p \<Rightarrow> if issues = [] then Inr (p, arr) else Inl (ZodError issues)
                   | NotString \<Rightarrow> Inl (ZodError issues))))"

section \<open>The handlers\<close>

text \<open>
  Each handler is one step on the store: it runs from its first query to its answer with
  no other request in between, after the authentication middleware has let the request
  through.
\<close>

datatype drawn = NotYetPublished | Drawn "jsnum list"

record ticket_view =
  view_id :: jsstring
  view_personalId :: jsstring
  view_nums :: "jsnum list"
  view_draw :: drawn

datatype response =
    NoContent
  | Failed error
  | TicketCreated ticket
  | TicketPage ticket_view

datatype jsarray = NotArray | IsArray "jsstring list"

definition post_new_round :: "store \<Rightarrow> response \<times> store" where
  "post_new_round s =
     (case getOpenRound s of
        Some current \<Rightarrow> (NoContent, s)
      | None \<Rightarrow>
          let s1 = s\<lparr>rounds := map (\<lambda>r. if isOpen r then r\<lparr>isOpen := False\<rparr> else r) (rounds s)\<rparr>
          in (NoContent, round_create s1 True))"

definition post_close :: "store \<Rightarrow> response \<times> store" where
  "post_close s =
     (case getOpenRound s of
        None \<Rightarrow> (NoContent, s)
      | Some (current, d) \<Rightarrow>
          (NoContent,
           s\<lparr>rounds := map (\<lambda>r. if round_id r = round_id current then r\<lparr>isOpen := False\<rparr> else r)
                          (rounds s)\<rparr>))"

definition post_tickets ::
  "store \<Rightarrow> jsstring \<Rightarrow> jsfield \<Rightarrow> jsfield \<Rightarrow> jsstring option \<Rightarrow> response \<times> store" where
  \<comment> \<open>\<open>new_id\<close> is the identifier Prisma generates for the row; \<open>sub\<close> is
      \<^verbatim>\<open>req.oidc?.user?.sub\<close>. The answer on success is the QR image of the ticket's
      address, here the created row; the encoding of the image is taken to succeed.\<close>
  "post_tickets s new_id pid nums sub =
     (case getOpenRound s of
        None \<Rightarrow> (Failed AdmissionClosed, s)
      | Some (openRound, d) \<Rightarrow>
          (case ticketSchema_parse pid nums of
             Inl e \<Rightarrow> (Failed e, s)
           | Inr (p, arr) \<Rightarrow>
               let t = \<lparr>ticket_id = new_id, personalId = p,
                        numbersCsv = join_comma (map decimal arr),
                        ticket_roundId = round_id openRound,
                        userSub = (case sub of
                                     None \<Rightarrow> None
                                   | Some u \<Rightarrow> if u = [] then None else Some u)\<rparr>
               in (case ticket_create s t of
                     Inl e \<Rightarrow> (Failed (PersistenceFailure e), s)
                   | Inr s' \<Rightarrow> (TicketCreated t, s'))))"

definition get_ticket :: "store \<Rightarrow> jsstring \<Rightarrow> response" where
  "get_ticket s tid =
     (case find (\<lambda>t. ticket_id t = tid) (tickets s) of
        None \<Rightarrow> Failed NotFound
      | Some t \<Rightarrow>
          let nums = map Number (split_comma (numbersCsv t));
              draw = (case draw_of s (ticket_roundId t) of
                        None \<Rightarrow> []
                      | Some d \<Rightarrow>
                          if numbers d \<noteq> [] then map Number (split_comma (numbers d)) else [])
          in TicketPage \<lparr>view_id = ticket_id t, view_personalId = personalId t,
                          view_nums = nums,
                          view_draw = (if draw \<noteq> [] then Drawn draw else NotYetPublished)\<rparr>)"

definition post_store_results :: "store \<Rightarrow> jsarray \<Rightarrow> response \<times> store" where
  \<comment> \<open>an array is given by the strings \<^verbatim>\<open>join\<close> turns its elements into\<close>
  "post_store_results s nums =
     (if (case getOpenRound s of Some (r, d) \<Rightarrow> isOpen r | None \<Rightarrow> False)
        then (Failed BettingStillActive, s)
      else (case getLastRound s of
              None \<Rightarrow> (Failed NoRoundsExist, s)
            | Some (lastRound, d) \<Rightarrow>
                if d \<noteq> None then (Failed DrawAlreadyExists, s)
                else (case nums of
                        NotArray \<Rightarrow> (Failed MissingOrInvalidNumbers, s)
                      | IsArray elems \<Rightarrow>
                          (case draw_create s (round_id lastRound) (join_comma elems) of
                             Inl e \<Rightarrow> (Failed (Unhandled e), s)
                           | Inr s' \<Rightarrow> (NoContent, s')))))"

subsection \<open>Sequences of requests\<close>

datatype request =
    NewRound
  | Close
  | Tickets jsstring jsfield jsfield "jsstring option"
  | StoreResults jsarray
  | GetTicket jsstring

fun handle :: "store \<Rightarrow> request \<Rightarrow> response \<times> store" where
  "handle s NewRound = post_new_round s"
| "handle s Close = post_close s"
| "handle s (Tickets new_id pid nums sub) = post_tickets s new_id pid nums sub"
| "handle s (StoreResults nums) = post_store_results s nums"
| "handle s (GetTicket tid) = (get_ticket s tid, s)"

fun exec :: "store \<Rightarrow> request list \<Rightarrow> store" where
  "exec s [] = s"
| "exec s (r # rs) = exec (snd (handle s r)) rs"

subsection \<open>Notions of the specification\<close>

definition open_rounds :: "store \<Rightarrow> round list" where
  \<comment> \<open>the rounds with \<^verbatim>\<open>isOpen = true\<close>\<close>
  "open_rounds s = filter isOpen (rounds s)"

definition valid_personalId :: "jsstring \<Rightarrow> bool" where
  \<comment> \<open>non-empty, at most 20 code units, all of them in \<^verbatim>\<open>[A-Za-z0-9]\<close>\<close>
  "valid_personalId p \<longleftrightarrow> p \<noteq> [] \<and> length p \<le> 20 \<and> list_all is_alnum p"

definition InvalidPersonalId :: "error \<Rightarrow> bool" where
  \<comment> \<open>the answer carries issues of \<^verbatim>\<open>personalId\<close>'s three checks, and nothing else\<close>
  "InvalidPersonalId e =
     (case e of
        ZodError issues \<Rightarrow>
          issues \<noteq> [] \<and>
          list_all (\<lambda>i. i = PersonalIdEmpty \<or> i = PersonalIdTooLong \<or> i = PersonalIdNotAlnum) issues
      | _ \<Rightarrow> False)"


text \<open>
  The invariant of the reachable stores: at most one round is open; no round and no draw
  names a round beyond the sequence; an open round has the greatest identifier; a round
  with a draw is closed; and the two keys \<^verbatim>\<open>Draw_roundId_key\<close> and \<^verbatim>\<open>Ticket_pkey\<close>
  hold.
\<close>

definition store_inv :: "store \<Rightarrow> bool" where
  "store_inv s \<longleftrightarrow>
     length (open_rounds s) \<le> 1 \<and>
     (\<forall>r \<in> set (rounds s). round_id r \<le> round_seq s) \<and>
     (\<forall>d \<in> set (draws s). draw_roundId d \<le> round_seq s) \<and>
     (\<forall>r \<in> set (rounds s). isOpen r \<longrightarrow> (\<forall>x \<in> set (rounds s). round_id x \<le> round_id r)) \<and>
     (\<forall>r \<in> set (rounds s). \<forall>d \<in> set (draws s). round_id r = draw_roundId d \<longrightarrow> \<not> isOpen r) \<and>
     distinct (map draw_roundId (draws s)) \<and>
     distinct (map ticket_id (tickets s))"


text \<open>
  Three stores of a first round, for the examples: the round open; the round closed with
  one ticket; and the closed round with its draw.
\<close>

definition open_store :: store where
  "open_store =
     \<lparr>rounds = [\<lparr>round_id = 1, isOpen = True\<rparr>], tickets = [], draws = [],
      round_seq = 1, draw_seq = 0\<rparr>"

definition closed_store :: store where
  "closed_store =
     \<lparr>rounds = [\<lparr>round_id = 1, isOpen = False\<rparr>],
      tickets = [\<lparr>ticket_id = utf16 ''t1'', personalId = utf16 ''AB123456'',
                  numbersCsv = utf16 ''1,2,3,4,5,6'', ticket_roundId = 1, userSub = None\<rparr>],
      draws = [], round_seq = 1, draw_seq = 0\<rparr>"

definition drawn_store :: store where
  "drawn_store =
     closed_store\<lparr>draws := [\<lparr>draw_id = 1, numbers = utf16 ''7,13'', draw_roundId = 1\<rparr>],
                  draw_seq := 1\<rparr>"


section \<open>Lists, lookups and the two queries\<close>

lemma find_None_filter: "find P xs = None \<longleftrightarrow> filter P xs = []"
  by (induction xs) auto

lemma list_ex_find: "list_ex P xs \<longleftrightarrow> find P xs \<noteq> None"
  by (induction xs) auto

lemma getOpenRound_None: "getOpenRound s = None \<longleftrightarrow> open_rounds s = []"
  by (simp add: getOpenRound_def open_rounds_def find_None_filter)

lemma getOpenRound_Some:
  "getOpenRound s = Some (r, d) \<Longrightarrow>
     r \<in> set (rounds s) \<and> isOpen r \<and> d = draw_of s (round_id r)"
  by (auto simp: getOpenRound_def with_draw_def find_Some_iff)

lemma open_check:
  "(case getOpenRound s of Some (r, d) \<Rightarrow> isOpen r | None \<Rightarrow> False) \<longleftrightarrow> open_rounds s \<noteq> []"
  using getOpenRound_None [of s] getOpenRound_Some [of s]
  by (auto split: option.splits)

lemma foldl_max_id:
  "foldl (\<lambda>m x. if round_id m < round_id x then x else m) r rs \<in> set (r # rs) \<and>
   (\<forall>x \<in> set (r # rs).
      round_id x \<le> round_id (foldl (\<lambda>m x. if round_id m < round_id x then x else m) r rs))"
proof (induction rs arbitrary: r)
  case Nil
  then show ?case by simp
next
  case (Cons a rs)
  show ?case
    using Cons.IH [of "if round_id r < round_id a then a else r"]
    by (auto split: if_splits)
qed

lemma getLastRound_Some:
  assumes "getLastRound s = Some (r, d)"
  shows "r \<in> set (rounds s)"
    and "\<forall>x \<in> set (rounds s). round_id x \<le> round_id r"
    and "d = draw_of s (round_id r)"
proof -
  obtain a rs where rs: "rounds s = a # rs"
    using assms by (auto simp: getLastRound_def split: list.splits)
  then have r: "r = foldl (\<lambda>m x. if round_id m < round_id x then x else m) a rs"
    and d: "d = draw_of s (round_id r)"
    using assms by (auto simp: getLastRound_def with_draw_def)
  show "r \<in> set (rounds s)"
    unfolding rs r using foldl_max_id [of a rs] by blast
  show "\<forall>x \<in> set (rounds s). round_id x \<le> round_id r"
    unfolding rs r using foldl_max_id [of a rs] by blast
  show "d = draw_of s (round_id r)" by (rule d)
qed

lemma draw_create_ok:
  assumes "draw_of s rid = None" and "r \<in> set (rounds s)" and "round_id r = rid"
  shows "draw_create s rid ns =
    (if 0 \<in> set ns then Inl InvalidByteSequence
     else Inr (s\<lparr>draws := draws s @ [\<lparr>draw_id = Suc (draw_seq s), numbers = to_well_formed ns,
                                       draw_roundId = rid\<rparr>],
                draw_seq := Suc (draw_seq s)\<rparr>))"
proof -
  have "\<not> list_ex (\<lambda>d. draw_roundId d = rid) (draws s)"
    using assms(1) by (simp add: draw_of_def list_ex_find)
  moreover have "list_ex (\<lambda>x. round_id x = rid) (rounds s)"
    using assms(2,3) by (auto simp: list_ex_iff)
  ultimately show ?thesis
    by (simp add: draw_create_def)
qed

subsection \<open>Splitting what was joined\<close>




section \<open>Rounding and \<^verbatim>\<open>Number\<close> on the digits of small integers\<close>

lemma round_half_even_of_int: "round_half_even (of_int z) = z"
  by (simp add: round_half_even_def)

lemma ilog2_of_nat:
  assumes "0 < n"
  shows "ilog2 (of_nat n) = int (floorlog 2 n) - 1"
proof -
  have q: "quotient_of (of_nat n) = (int n, 1)"
    using quotient_of_int [of "int n"] by simp
  have fl: "1 \<le> floorlog 2 n"
    using assms by (simp add: floorlog_def)
  have "(2::nat) ^ (floorlog 2 n - 1) \<le> n"
    using floorlog_bounds [of n 2] assms by simp
  then have "(of_nat ((2::nat) ^ (floorlog 2 n - 1)) :: rat) \<le> of_nat n"
    using of_nat_le_iff by blast
  then have "pow2 (int (floorlog 2 n) - 1) \<le> of_nat n"
    using fl by (simp add: pow2_def nat_diff_distrib)
  moreover have "floorlog 2 (Suc 0) = 1"
    by (simp add: floorlog_def)
  ultimately show ?thesis
    by (simp add: ilog2_def q Let_def)
qed

lemma to_double_of_nat:
  assumes "n < 2 ^ 53"
  shows "to_double (of_nat n) = Fin (of_nat n)"
proof (cases "n = 0")
  case True
  then show ?thesis by (simp add: to_double_def)
next
  case False
  then have pos: "0 < n" by simp
  define e where "e = int (floorlog 2 n) - 1"
  have e: "ilog2 (of_nat n) = e"
    using pos by (simp add: ilog2_of_nat e_def)
  have "floorlog 2 n \<le> 53"
    using assms by (simp add: floorlog_le_iff)
  moreover have "1 \<le> floorlog 2 n"
    using pos by (simp add: floorlog_def)
  ultimately have e_bounds: "0 \<le> e" "e \<le> 52"
    by (simp_all add: e_def)
  define k where "k = nat (52 - e)"
  have mx: "max e (- 1022) = e"
    using e_bounds by simp
  have ulp: "pow2 (e - 52) = 1 / 2 ^ k"
    using e_bounds by (auto simp: pow2_def k_def)
  have "(of_nat n :: rat) * 2 ^ k = of_int (int n * 2 ^ k)"
    by simp
  then have m: "round_half_even ((of_nat n :: rat) * 2 ^ k) = int n * 2 ^ k"
    using round_half_even_of_int by metis
  show ?thesis
    using pos e_bounds
    by (simp add: to_double_def e mx ulp m Let_def)
qed

lemma to_double_numeral:
  "(numeral k :: nat) < 2 ^ 53 \<Longrightarrow> to_double (numeral k) = Fin (numeral k)"
  using to_double_of_nat [of "numeral k"] by simp

lemma to_double_one: "to_double 1 = Fin 1"
  using to_double_of_nat [of 1] by simp

lemmas number_eval =
  Number_def trim_def is_space_def non_decimal_def str_decimal_def unsigned_decimal_def
  exponent_part_def all_digits_def digits_val_def digit_val_def is_digit_def pow10_def
  utf16_def to_double_numeral to_double_one

lemma in_range_iff: "in_range n \<longleftrightarrow> (\<exists>k. 1 \<le> k \<and> k \<le> 45 \<and> n = Fin (of_nat k))"
proof
  assume "in_range n"
  then obtain q where n: "n = Fin q" and int: "\<exists>z. q = of_int z" and lo: "1 \<le> q" and hi: "q \<le> 45"
    by (cases n) (auto simp: in_range_def isInteger_def js_less_def js_greater_def)
  obtain z where q: "q = of_int z"
    using int by blast
  have "1 \<le> z" "z \<le> 45"
    using lo hi unfolding q by simp_all
  then have "1 \<le> nat z" "nat z \<le> 45" "of_nat (nat z) = q"
    unfolding q by simp_all
  then show "\<exists>k. 1 \<le> k \<and> k \<le> 45 \<and> n = Fin (of_nat k)"
    using n by metis
next
  assume "\<exists>k. 1 \<le> k \<and> k \<le> 45 \<and> n = Fin (of_nat k)"
  then show "in_range n"
    by (auto simp: in_range_def isInteger_def js_less_def js_greater_def)
qed




section \<open>The invariant of the reachable stores\<close>

lemma store_inv_empty: "store_inv empty_store"
  by (simp add: store_inv_def empty_store_def open_rounds_def)

lemma length_filter_close_id:
  "length (filter isOpen (map (\<lambda>r. if round_id r = k then r\<lparr>isOpen := False\<rparr> else r) rs))
     \<le> length (filter isOpen rs)"
  by (induction rs) auto

lemma post_new_round_inv:
  assumes "store_inv s"
  shows "store_inv (snd (post_new_round s))"
proof (cases "getOpenRound s")
  case (Some a)
  then show ?thesis using assms by (simp add: post_new_round_def)
next
  case None
  then have closed: "\<forall>r \<in> set (rounds s). \<not> isOpen r"
    by (simp add: getOpenRound_None open_rounds_def filter_empty_conv)
  then have same: "map (\<lambda>r. if isOpen r then r\<lparr>isOpen := False\<rparr> else r) (rounds s) = rounds s"
    by (simp add: map_idI)
  have s': "snd (post_new_round s) =
    s\<lparr>rounds := rounds s @ [\<lparr>round_id = Suc (round_seq s), isOpen = True\<rparr>],
      round_seq := Suc (round_seq s)\<rparr>"
    using None by (simp add: post_new_round_def round_create_def same)
  show ?thesis
    using assms closed unfolding s' store_inv_def open_rounds_def
    by (auto simp: filter_empty_conv [THEN iffD2] le_Suc_eq)
qed

lemma post_close_inv:
  assumes "store_inv s"
  shows "store_inv (snd (post_close s))"
proof (cases "getOpenRound s")
  case None
  then show ?thesis using assms by (simp add: post_close_def)
next
  case (Some a)
  obtain cur d where a: "a = (cur, d)" by (cases a)
  have s': "snd (post_close s) =
    s\<lparr>rounds := map (\<lambda>r. if round_id r = round_id cur then r\<lparr>isOpen := False\<rparr> else r) (rounds s)\<rparr>"
    using Some a by (simp add: post_close_def)
  have len: "length (open_rounds (snd (post_close s))) \<le> 1"
    using assms length_filter_close_id [of "round_id cur" "rounds s"]
    unfolding s' store_inv_def open_rounds_def by simp
  have max_open: "round_id x \<le> round_id r"
    if "r \<in> set (rounds s)" "isOpen r" "x \<in> set (rounds s)" for r x
    using assms that unfolding store_inv_def by blast
  show ?thesis
    using assms len unfolding store_inv_def
    unfolding s' by (auto split: if_splits) (metis max_open)+
qed

lemma ticket_create_cases:
  "ticket_create s t = Inr s' \<Longrightarrow>
     \<not> list_ex (\<lambda>u. ticket_id u = ticket_id t) (tickets s) \<and> s' = s\<lparr>tickets := tickets s @ [t]\<rparr>"
  by (auto simp: ticket_create_def split: if_splits)

lemma post_tickets_cases:
  "snd (post_tickets s new_id pid nums sub) = s \<or>
   (\<exists>t. ticket_id t = new_id \<and> \<not> list_ex (\<lambda>u. ticket_id u = new_id) (tickets s) \<and>
      snd (post_tickets s new_id pid nums sub) = s\<lparr>tickets := tickets s @ [t]\<rparr>)"
proof (cases "getOpenRound s")
  case None
  then show ?thesis by (simp add: post_tickets_def)
next
  case (Some a)
  obtain r d where a: "a = (r, d)" by (cases a)
  show ?thesis
  proof (cases "ticketSchema_parse pid nums")
    case (Inl e)
    then show ?thesis using Some a by (simp add: post_tickets_def)
  next
    case (Inr b)
    obtain p arr where b: "b = (p, arr)" by (cases b)
    define t where "t = \<lparr>ticket_id = new_id, personalId = p,
                        numbersCsv = join_comma (map decimal arr),
                        ticket_roundId = round_id r,
                        userSub = (case sub of
                                     None \<Rightarrow> None
                                   | Some u \<Rightarrow> if u = [] then None else Some u)\<rparr>"
    have tid: "ticket_id t = new_id" by (simp add: t_def)
    have pt: "snd (post_tickets s new_id pid nums sub) =
      (case ticket_create s t of Inl e \<Rightarrow> s | Inr s' \<Rightarrow> s')"
      using Some a Inr b by (simp add: post_tickets_def t_def split: sum.splits)
    show ?thesis
    proof (cases "ticket_create s t")
      case (Inl e)
      then show ?thesis using pt by simp
    next
      case (Inr s')
      then show ?thesis
        using pt tid ticket_create_cases [OF Inr] by auto
    qed
  qed
qed

lemma post_tickets_inv:
  assumes "store_inv s"
  shows "store_inv (snd (post_tickets s new_id pid nums sub))"
  using post_tickets_cases [of s new_id pid nums sub]
proof
  assume "snd (post_tickets s new_id pid nums sub) = s"
  then show ?thesis using assms by simp
next
  assume "\<exists>t. ticket_id t = new_id \<and> \<not> list_ex (\<lambda>u. ticket_id u = new_id) (tickets s) \<and>
      snd (post_tickets s new_id pid nums sub) = s\<lparr>tickets := tickets s @ [t]\<rparr>"
  then obtain t where t: "ticket_id t = new_id"
    and fresh: "\<not> list_ex (\<lambda>u. ticket_id u = new_id) (tickets s)"
    and s': "snd (post_tickets s new_id pid nums sub) = s\<lparr>tickets := tickets s @ [t]\<rparr>"
    by blast
  have "new_id \<notin> ticket_id ` set (tickets s)"
    using fresh by (auto simp: list_ex_iff)
  then show ?thesis
    using assms t unfolding s' store_inv_def open_rounds_def by simp
qed

lemma post_store_results_cases:
  "snd (post_store_results s nums) = s \<or>
   (\<exists>r elems. open_rounds s = [] \<and> getLastRound s = Some (r, None) \<and> nums = IsArray elems \<and>
      snd (post_store_results s nums) =
        s\<lparr>draws := draws s @ [\<lparr>draw_id = Suc (draw_seq s), numbers = to_well_formed (join_comma elems),
                                 draw_roundId = round_id r\<rparr>],
          draw_seq := Suc (draw_seq s)\<rparr>)"
proof (cases "open_rounds s = []")
  case False
  then show ?thesis by (simp add: post_store_results_def open_check)
next
  case True
  show ?thesis
  proof (cases "getLastRound s")
    case None
    then show ?thesis using True by (simp add: post_store_results_def open_check)
  next
    case (Some a)
    obtain r d where a: "a = (r, d)" by (cases a)
    show ?thesis
    proof (cases d)
      case (Some x)
      then show ?thesis
        using True \<open>getLastRound s = Some a\<close> a by (simp add: post_store_results_def open_check)
    next
      case None
      have "draw_of s (round_id r) = None" and "r \<in> set (rounds s)"
        using \<open>getLastRound s = Some a\<close> a None getLastRound_Some [of s r None] by simp_all
      then have dc: "\<And>ns. draw_create s (round_id r) ns =
        (if 0 \<in> set ns then Inl InvalidByteSequence
         else Inr (s\<lparr>draws := draws s @ [\<lparr>draw_id = Suc (draw_seq s),
                                            numbers = to_well_formed ns,
                                            draw_roundId = round_id r\<rparr>],
                    draw_seq := Suc (draw_seq s)\<rparr>))"
        by (rule draw_create_ok) simp_all
      show ?thesis
        using True \<open>getLastRound s = Some a\<close> a None dc
        by (cases nums) (simp_all add: post_store_results_def open_check)
    qed
  qed
qed

lemma post_store_results_inv:
  assumes "store_inv s"
  shows "store_inv (snd (post_store_results s nums))"
  using post_store_results_cases [of s nums]
proof
  assume "snd (post_store_results s nums) = s"
  then show ?thesis using assms by simp
next
  assume "\<exists>r elems. open_rounds s = [] \<and> getLastRound s = Some (r, None) \<and> nums = IsArray elems \<and>
      snd (post_store_results s nums) =
        s\<lparr>draws := draws s @ [\<lparr>draw_id = Suc (draw_seq s), numbers = to_well_formed (join_comma elems),
                                 draw_roundId = round_id r\<rparr>],
          draw_seq := Suc (draw_seq s)\<rparr>"
  then obtain r elems where op: "open_rounds s = []" and lr: "getLastRound s = Some (r, None)"
    and s': "snd (post_store_results s nums) =
        s\<lparr>draws := draws s @ [\<lparr>draw_id = Suc (draw_seq s), numbers = to_well_formed (join_comma elems),
                                 draw_roundId = round_id r\<rparr>],
          draw_seq := Suc (draw_seq s)\<rparr>"
    by blast
  have r: "r \<in> set (rounds s)" and nd: "draw_of s (round_id r) = None"
    using getLastRound_Some [OF lr] by simp_all
  have fresh: "round_id r \<notin> draw_roundId ` set (draws s)"
    using nd by (auto simp: draw_of_def find_None_iff)
  have closed: "\<forall>x \<in> set (rounds s). \<not> isOpen x"
    using op by (simp add: open_rounds_def filter_empty_conv)
  show ?thesis
    using assms r fresh closed unfolding s' store_inv_def open_rounds_def
    by auto
qed

lemma handle_inv: "store_inv s \<Longrightarrow> store_inv (snd (handle s req))"
  by (cases req) (simp_all add: post_new_round_inv post_close_inv post_tickets_inv post_store_results_inv)

lemma exec_inv: "store_inv s \<Longrightarrow> store_inv (exec s reqs)"
  by (induction reqs arbitrary: s) (simp_all add: handle_inv)

lemma exec_append: "exec s (xs @ ys) = exec (exec s xs) ys"
  by (induction xs arbitrary: s) simp_all

text \<open>
  C1. From the empty store, whatever sequence of requests is handled (new round, close,
  ticket submission, publication of a draw, ticket lookup), at most one round of the
  resulting store is open. A prefix of a sequence is a sequence, so the bound holds after
  every step.
\<close>
theorem single_open_round:
  "length (open_rounds (exec empty_store reqs)) \<le> 1"
  using exec_inv [OF store_inv_empty, of reqs] by (simp add: store_inv_def)

section \<open>Draws and rounds\<close>

lemma distinct_filter_le_1:
  "distinct (map f xs) \<Longrightarrow> length (filter (\<lambda>x. f x = k) xs) \<le> 1"
proof (induction xs)
  case Nil
  then show ?case by simp
next
  case (Cons a xs)
  show ?case
  proof (cases "f a = k")
    case True
    then have "k \<notin> f ` set xs" using Cons.prems by auto
    then have "filter (\<lambda>x. f x = k) xs = []"
      by (auto simp: filter_empty_conv)
    then show ?thesis using True by simp
  next
    case False
    then show ?thesis using Cons by simp
  qed
qed

lemma last_drawn_closed:
  assumes inv: "store_inv s" and lr: "getLastRound s = Some (r, Some d)"
  shows "open_rounds s = []"
proof (rule ccontr)
  assume "open_rounds s \<noteq> []"
  then obtain x where x: "x \<in> set (rounds s)" "isOpen x"
    by (auto simp: open_rounds_def filter_empty_conv)
  have "round_id r \<le> round_id x"
    using inv x getLastRound_Some(1) [OF lr] unfolding store_inv_def by blast
  moreover have "round_id x \<le> round_id r"
    using getLastRound_Some(2) [OF lr] x by blast
  ultimately have eq: "round_id x = round_id r" by simp
  have "draw_of s (round_id r) = Some d"
    using getLastRound_Some(3) [OF lr] by simp
  then have "d \<in> set (draws s)" "draw_roundId d = round_id r"
    by (auto simp: draw_of_def find_Some_iff)
  then have "\<not> isOpen x"
    using inv x eq unfolding store_inv_def by metis
  then show False using x by simp
qed

lemma drawn_again:
  assumes "store_inv s" and "getLastRound s = Some (r, Some d)"
  shows "post_store_results s nums = (Failed DrawAlreadyExists, s)"
  using assms last_drawn_closed [OF assms]
  by (simp add: post_store_results_def open_check)

lemma post_store_results_NoContent:
  assumes "post_store_results s nums = (NoContent, s')"
  shows "\<exists>r elems. open_rounds s = [] \<and> getLastRound s = Some (r, None) \<and> nums = IsArray elems \<and>
      0 \<notin> set (join_comma elems) \<and>
      s' = s\<lparr>draws := draws s @ [\<lparr>draw_id = Suc (draw_seq s), numbers = to_well_formed (join_comma elems),
                                 draw_roundId = round_id r\<rparr>],
          draw_seq := Suc (draw_seq s)\<rparr>"
proof -
  have ne: "open_rounds s = []"
    using assms by (auto simp: post_store_results_def open_check split: if_splits)
  obtain r d where lr: "getLastRound s = Some (r, d)"
    using assms ne by (cases "getLastRound s") (auto simp: post_store_results_def open_check)
  have d: "d = None"
    using assms ne lr by (cases d) (auto simp: post_store_results_def open_check)
  obtain elems where el: "nums = IsArray elems"
    using assms ne lr d by (cases nums) (auto simp: post_store_results_def open_check)
  have "draw_of s (round_id r) = None" and "r \<in> set (rounds s)"
    using lr d getLastRound_Some [of s r None] by simp_all
  then have "draw_create s (round_id r) (join_comma elems) =
        (if 0 \<in> set (join_comma elems) then Inl InvalidByteSequence
         else Inr (s\<lparr>draws := draws s @ [\<lparr>draw_id = Suc (draw_seq s),
                                            numbers = to_well_formed (join_comma elems),
                                            draw_roundId = round_id r\<rparr>],
                    draw_seq := Suc (draw_seq s)\<rparr>))"
    by (rule draw_create_ok) simp_all
  then show ?thesis
    using assms ne lr d el
    by (auto simp: post_store_results_def open_check split: if_splits)
qed

lemma find_append_new:
  "find P xs = None \<Longrightarrow> P y \<Longrightarrow> find P (xs @ [y]) = Some y"
  by (induction xs) (auto split: if_splits)

lemma second_publish:
  assumes inv: "store_inv s" and ok: "post_store_results s nums = (NoContent, s')"
  shows "post_store_results s' nums' = (Failed DrawAlreadyExists, s')"
proof -
  obtain r elems where lr: "getLastRound s = Some (r, None)"
    and s': "s' = s\<lparr>draws := draws s @ [\<lparr>draw_id = Suc (draw_seq s), numbers = to_well_formed (join_comma elems),
                                 draw_roundId = round_id r\<rparr>],
          draw_seq := Suc (draw_seq s)\<rparr>"
    using post_store_results_NoContent [OF ok] by blast
  have inv': "store_inv s'"
    using post_store_results_inv [OF inv, of nums] ok by simp
  have "draw_of s (round_id r) = None"
    using getLastRound_Some(3) [OF lr] by simp
  then have "draw_of s' (round_id r) =
      Some \<lparr>draw_id = Suc (draw_seq s), numbers = to_well_formed (join_comma elems), draw_roundId = round_id r\<rparr>"
    by (simp add: s' draw_of_def find_append_new)
  moreover have "getLastRound s' = Some (r, draw_of s' (round_id r))"
    using lr by (auto simp: getLastRound_def with_draw_def s' split: list.splits)
  ultimately show ?thesis
    using drawn_again [OF inv'] by simp
qed

text \<open>
  C2. In every store reached from the empty one, a round has at most one draw; when the
  most recent round has a draw, \<^verbatim>\<open>POST /store-results\<close> answers DrawAlreadyExists and
  returns the store as it was, whatever its body; and after a publication that succeeded,
  the next one fails in this way and leaves the draws unchanged.
\<close>
theorem one_draw_per_round:
  assumes "s = exec empty_store reqs"
  shows "(\<forall>rid. length (filter (\<lambda>d. draw_roundId d = rid) (draws s)) \<le> 1) \<and>
    (\<forall>r d nums. getLastRound s = Some (r, Some d) \<longrightarrow>
       post_store_results s nums = (Failed DrawAlreadyExists, s)) \<and>
    (\<forall>nums s' nums'. post_store_results s nums = (NoContent, s') \<longrightarrow>
       post_store_results s' nums' = (Failed DrawAlreadyExists, s') \<and>
       draws (snd (post_store_results s' nums')) = draws s')"
proof -
  have inv: "store_inv s"
    using assms exec_inv [OF store_inv_empty] by simp
  then have "distinct (map draw_roundId (draws s))"
    by (simp add: store_inv_def)
  then have "\<forall>rid. length (filter (\<lambda>d. draw_roundId d = rid) (draws s)) \<le> 1"
    using distinct_filter_le_1 [of draw_roundId "draws s"] by blast
  then show ?thesis
    using drawn_again [OF inv] second_publish [OF inv] by simp
qed

lemma find_filter_hd: "filter P xs = x # ys \<Longrightarrow> find P xs = Some x"
  by (induction xs) (auto split: if_splits)

lemma new_round_noop: "open_rounds s \<noteq> [] \<Longrightarrow> post_new_round s = (NoContent, s)"
  using getOpenRound_None [of s] by (auto simp: post_new_round_def split: option.splits)

lemma new_round_opens:
  assumes "open_rounds s = []"
  shows "open_rounds (snd (post_new_round s)) = [\<lparr>round_id = Suc (round_seq s), isOpen = True\<rparr>]"
proof -
  have closed: "\<forall>r \<in> set (rounds s). \<not> isOpen r"
    using assms by (simp add: open_rounds_def filter_empty_conv)
  then have same: "map (\<lambda>r. if isOpen r then r\<lparr>isOpen := False\<rparr> else r) (rounds s) = rounds s"
    by (simp add: map_idI)
  have "getOpenRound s = None"
    using assms by (simp add: getOpenRound_None)
  then show ?thesis
    using assms by (simp add: post_new_round_def round_create_def same open_rounds_def)
qed

text \<open>
  C7. With a round open, \<^verbatim>\<open>POST /new-round\<close> answers 204 and returns the store as it
  was. From a store with at most one open round, and so from every store reached from the
  empty one, two calls in a row leave exactly one round open, the second call being such
  a no-op.
\<close>
theorem new_round_idempotent:
  "(open_rounds s \<noteq> [] \<longrightarrow> post_new_round s = (NoContent, s)) \<and>
   (length (open_rounds s) \<le> 1 \<longrightarrow>
      length (open_rounds (exec s [NewRound, NewRound])) = 1 \<and>
      handle (exec s [NewRound]) NewRound = (NoContent, exec s [NewRound])) \<and>
   length (open_rounds (exec (exec empty_store reqs) [NewRound, NewRound])) = 1"
proof -
  have two: "length (open_rounds (exec t [NewRound, NewRound])) = 1 \<and>
      handle (exec t [NewRound]) NewRound = (NoContent, exec t [NewRound])"
    if le: "length (open_rounds t) \<le> 1" for t
  proof (cases "open_rounds t = []")
    case True
    have one: "open_rounds (exec t [NewRound]) \<noteq> []" "length (open_rounds (exec t [NewRound])) = 1"
      using new_round_opens [OF True] by simp_all
    then show ?thesis
      using new_round_noop [of "exec t [NewRound]"] by simp
  next
    case False
    then have "length (open_rounds t) = 1"
      using le by (cases "open_rounds t") simp_all
    then show ?thesis
      using False new_round_noop [of t] by simp
  qed
  have "length (open_rounds (exec empty_store reqs)) \<le> 1"
    using exec_inv [OF store_inv_empty, of reqs] by (simp add: store_inv_def)
  then show ?thesis
    using two new_round_noop by blast
qed









section \<open>Ticket admission\<close>

text \<open>
  C4. With no round open, \<^verbatim>\<open>POST /tickets\<close> answers AdmissionClosed (403) whatever the
  two fields of the body are, strings or not, valid or not: the schema is never
  consulted, and the store is returned as it was, so no ticket is created.
\<close>

theorem admission_closed_first:
  assumes "open_rounds s = []"
  shows "post_tickets s new_id pid nums sub = (Failed AdmissionClosed, s)"
  using assms getOpenRound_None [of s] by (simp add: post_tickets_def)

lemmas handler_eval =
  post_new_round_def post_close_def post_tickets_def post_store_results_def get_ticket_def
  getOpenRound_def getLastRound_def with_draw_def draw_of_def round_create_def
  ticket_create_def draw_create_def empty_store_def open_rounds_def ticketSchema_parse_def
  personalId_issues_def numbers_transform_def parse_numbers_def tokens_def in_range_def
  isInteger_def js_less_def js_greater_def to_nat_def is_alnum_def is_upper_def is_lower_def
  valid_personalId_def InvalidPersonalId_def is_high_def is_low_def

lemma numbers_transform_eq:
  "numbers_transform raw =
     (if length (parse_numbers raw) < 6 \<or> 10 < length (parse_numbers raw) then Inl InvalidCount
      else if \<exists>n \<in> set (parse_numbers raw). \<not> in_range n then Inl InvalidRange
      else if \<not> distinct (parse_numbers raw) then Inl DuplicateNumbers
      else Inr (map to_nat (parse_numbers raw)))"
  by (simp add: numbers_transform_def list_ex_iff Let_def)

lemma personalId_issues_Nil: "personalId_issues (IsString p) = [] \<longleftrightarrow> valid_personalId p"
  by (auto simp: personalId_issues_def valid_personalId_def)

lemma personalId_issues_invalid:
  "\<not> valid_personalId p \<Longrightarrow> InvalidPersonalId (ZodError (personalId_issues (IsString p)))"
  by (auto simp: personalId_issues_def valid_personalId_def InvalidPersonalId_def)

lemma getOpenRound_first:
  assumes "open_rounds s = r # rest"
  shows "getOpenRound s = Some (r, draw_of s (round_id r))" and "r \<in> set (rounds s)"
proof -
  show "getOpenRound s = Some (r, draw_of s (round_id r))"
    using assms find_filter_hd [of isOpen "rounds s" r rest]
    by (simp add: getOpenRound_def with_draw_def open_rounds_def)
  have "r \<in> set (filter isOpen (rounds s))"
    using assms by (simp add: open_rounds_def)
  then show "r \<in> set (rounds s)" by simp
qed

lemma ticket_create_ok:
  assumes "\<not> list_ex (\<lambda>u. ticket_id u = ticket_id t) (tickets s)"
    and "r \<in> set (rounds s)" and "ticket_roundId t = round_id r"
  shows "ticket_create s t = Inr (s\<lparr>tickets := tickets s @ [t]\<rparr>)"
proof -
  have "list_ex (\<lambda>x. round_id x = ticket_roundId t) (rounds s)"
    using assms(2,3) by (auto simp: list_ex_iff)
  then show ?thesis
    using assms(1) by (simp add: ticket_create_def)
qed

lemma post_tickets_eq:
  assumes "open_rounds s = r # rest"
    and "t = \<lparr>ticket_id = new_id, personalId = p,
              numbersCsv = join_comma (map decimal (map to_nat (parse_numbers raw))),
              ticket_roundId = round_id r,
              userSub = (case sub of None \<Rightarrow> None | Some u \<Rightarrow> if u = [] then None else Some u)\<rparr>"
  shows "post_tickets s new_id (IsString p) (IsString raw) sub =
    (if length (parse_numbers raw) < 6 \<or> 10 < length (parse_numbers raw)
       then (Failed InvalidCount, s)
     else if \<exists>n \<in> set (parse_numbers raw). \<not> in_range n
       then (Failed InvalidRange, s)
     else if \<not> distinct (parse_numbers raw) then (Failed DuplicateNumbers, s)
     else if \<not> valid_personalId p
       then (Failed (ZodError (personalId_issues (IsString p))), s)
     else if list_ex (\<lambda>t. ticket_id t = new_id) (tickets s)
       then (Failed (PersistenceFailure UniqueConstraintFailed), s)
     else (TicketCreated t, s\<lparr>tickets := tickets s @ [t]\<rparr>))"
proof -
  have op: "getOpenRound s = Some (r, draw_of s (round_id r))"
    by (rule getOpenRound_first(1) [OF assms(1)])
  have create: "ticket_create s t = Inr (s\<lparr>tickets := tickets s @ [t]\<rparr>)"
    if "\<not> list_ex (\<lambda>u. ticket_id u = new_id) (tickets s)"
    using that getOpenRound_first(2) [OF assms(1)] by (simp add: ticket_create_ok assms(2))
  have clash: "ticket_create s t = Inl UniqueConstraintFailed"
    if "list_ex (\<lambda>u. ticket_id u = new_id) (tickets s)"
    using that by (simp add: ticket_create_def assms(2))
  show ?thesis
    using create clash
    by (simp add: post_tickets_def op ticketSchema_parse_def numbers_transform_eq
        personalId_issues_Nil Let_def assms(2) [symmetric] del: map_map)
qed

lemma post_tickets_numbers_not_string:
  assumes "open_rounds s = r # rest"
  shows "post_tickets s new_id pid NotString sub =
    (Failed (ZodError (personalId_issues pid @ [NumbersNotString])), s)"
  using getOpenRound_first(1) [OF assms]
  by (simp add: post_tickets_def ticketSchema_parse_def)

lemma post_tickets_pid_not_string:
  assumes "open_rounds s = r # rest"
  shows "post_tickets s new_id NotString (IsString raw) sub =
    (if length (parse_numbers raw) < 6 \<or> 10 < length (parse_numbers raw)
       then (Failed InvalidCount, s)
     else if \<exists>n \<in> set (parse_numbers raw). \<not> in_range n
       then (Failed InvalidRange, s)
     else if \<not> distinct (parse_numbers raw) then (Failed DuplicateNumbers, s)
     else (Failed (ZodError [PersonalIdNotString]), s))"
  using getOpenRound_first(1) [OF assms]
  by (simp add: post_tickets_def ticketSchema_parse_def numbers_transform_eq personalId_issues_def)

text \<open>
  C3, as the code decides it. With a round open and both fields strings, the rules on
  \<^verbatim>\<open>numbers\<close> come first: zod collects the issues of \<^verbatim>\<open>personalId\<close> without
  throwing, then runs the transform of \<^verbatim>\<open>numbers\<close>, whose \<^verbatim>\<open>Error\<close> leaves
  \<^verbatim>\<open>parse\<close> at once. The answer is InvalidCount when the count of parsed numbers is
  below 6 or above 10; else InvalidRange when some value is not an integer from 1 to 45;
  else DuplicateNumbers when a value repeats; else the issues of \<^verbatim>\<open>personalId\<close>
  (InvalidPersonalId) when it is empty, longer than 20 code units or has a code unit
  outside \<^verbatim>\<open>[A-Za-z0-9]\<close>; else the ticket is created, unless the generated identifier
  is already a key of the table. A \<^verbatim>\<open>personalId\<close> that is no string is reported after the
  rules on \<^verbatim>\<open>numbers\<close> in the same way; a \<^verbatim>\<open>numbers\<close> that is no string runs no
  transform, and is reported with the issues of \<^verbatim>\<open>personalId\<close>.
\<close>
theorem validation_order:
  assumes "open_rounds s = r # rest"
  shows "post_tickets s new_id (IsString p) (IsString raw) sub =
    (if length (parse_numbers raw) < 6 \<or> 10 < length (parse_numbers raw)
       then (Failed InvalidCount, s)
     else if \<exists>n \<in> set (parse_numbers raw). \<not> (\<exists>k. 1 \<le> k \<and> k \<le> 45 \<and> n = Fin (of_nat k))
       then (Failed InvalidRange, s)
     else if \<not> distinct (parse_numbers raw) then (Failed DuplicateNumbers, s)
     else if \<not> valid_personalId p
       then (Failed (ZodError (personalId_issues (IsString p))), s)
     else if list_ex (\<lambda>t. ticket_id t = new_id) (tickets s)
       then (Failed (PersistenceFailure UniqueConstraintFailed), s)
     else (TicketCreated
             \<lparr>ticket_id = new_id, personalId = p,
              numbersCsv = join_comma (map decimal (map to_nat (parse_numbers raw))),
              ticket_roundId = round_id r,
              userSub = (case sub of None \<Rightarrow> None | Some u \<Rightarrow> if u = [] then None else Some u)\<rparr>,
           s\<lparr>tickets := tickets s @
             [\<lparr>ticket_id = new_id, personalId = p,
               numbersCsv = join_comma (map decimal (map to_nat (parse_numbers raw))),
               ticket_roundId = round_id r,
               userSub = (case sub of None \<Rightarrow> None | Some u \<Rightarrow> if u = [] then None else Some u)\<rparr>]\<rparr>))
    \<and> (valid_personalId p \<or> InvalidPersonalId (ZodError (personalId_issues (IsString p))))
    \<and> post_tickets s new_id NotString (IsString raw) sub =
    (if length (parse_numbers raw) < 6 \<or> 10 < length (parse_numbers raw)
       then (Failed InvalidCount, s)
     else if \<exists>n \<in> set (parse_numbers raw). \<not> (\<exists>k. 1 \<le> k \<and> k \<le> 45 \<and> n = Fin (of_nat k))
       then (Failed InvalidRange, s)
     else if \<not> distinct (parse_numbers raw) then (Failed DuplicateNumbers, s)
     else (Failed (ZodError [PersonalIdNotString]), s))
    \<and> post_tickets s new_id pid NotString sub =
      (Failed (ZodError (personalId_issues pid @ [NumbersNotString])), s)"
  using post_tickets_eq [OF assms refl, of new_id p raw sub] personalId_issues_invalid [of p]
    post_tickets_pid_not_string [OF assms, of new_id raw sub]
    post_tickets_numbers_not_string [OF assms, of new_id pid sub]
  unfolding in_range_iff by blast

section \<open>Tickets read back\<close>








text \<open>
  C6, as the code decides it. With a round open, when some token of \<^verbatim>\<open>numbers\<close> does
  not convert to an integer (\<^verbatim>\<open>Number\<close> gives NaN, a fraction or an infinity), the token
  still counts: the answer is InvalidCount only when the count of tokens is below 6 or
  above 10, and InvalidRange otherwise, whatever \<^verbatim>\<open>personalId\<close> is.
\<close>
theorem non_integer_token:
  assumes "open_rounds s = r # rest" and "tok \<in> set (tokens raw)" and "\<not> isInteger (Number tok)"
  shows "post_tickets s new_id (IsString p) (IsString raw) sub =
    (if length (tokens raw) < 6 \<or> 10 < length (tokens raw) then (Failed InvalidCount, s)
     else (Failed InvalidRange, s))"
proof -
  have "Number tok \<in> set (parse_numbers raw)"
    using assms(2) by (simp add: parse_numbers_def)
  moreover have "\<not> in_range (Number tok)"
    using assms(3) by (simp add: in_range_def)
  ultimately have "\<exists>n \<in> set (parse_numbers raw). \<not> in_range n"
    by blast
  moreover have "length (parse_numbers raw) = length (tokens raw)"
    by (simp add: parse_numbers_def)
  ultimately show ?thesis
    using post_tickets_eq [OF assms(1) refl, of new_id p raw sub] by simp
qed



section \<open>The handlers on the stores of a first round\<close>

lemma parse_six:
  "parse_numbers (utf16 ''1,2,3,4,5,6'') = [Fin 1, Fin 2, Fin 3, Fin 4, Fin 5, Fin 6]"
  by (simp add: parse_numbers_def tokens_def number_eval)

lemma valid_AB: "valid_personalId (utf16 ''AB123456'')"
  by (simp add: handler_eval is_digit_def utf16_def)

lemma exec_open: "exec empty_store [NewRound] = open_store"
  by (simp add: handler_eval open_store_def)

lemma exec_closed:
  "exec empty_store
     [NewRound,
      Tickets (utf16 ''t1'') (IsString (utf16 ''AB123456'')) (IsString (utf16 ''1,2,3,4,5,6'')) None,
      Close] = closed_store"
  by (simp add: handler_eval number_eval closed_store_def decimal.simps Let_def)

lemma exec_drawn:
  "exec closed_store [StoreResults (IsArray [utf16 ''7'', utf16 ''13''])] = drawn_store"
  by (simp add: handler_eval drawn_store_def closed_store_def utf16_def)

lemma open_store_open: "open_rounds open_store = [\<lparr>round_id = 1, isOpen = True\<rparr>]"
  by (simp add: open_store_def open_rounds_def)

lemma closed_store_facts:
  "open_rounds closed_store = []"
  "getLastRound closed_store = Some (\<lparr>round_id = 1, isOpen = False\<rparr>, None)"
  "distinct (map ticket_id (tickets closed_store))"
  by (simp_all add: closed_store_def open_rounds_def getLastRound_def with_draw_def draw_of_def)

lemma drawn_store_facts:
  "open_rounds drawn_store = []"
  "getLastRound drawn_store =
     Some (\<lparr>round_id = 1, isOpen = False\<rparr>,
           Some \<lparr>draw_id = 1, numbers = utf16 ''7,13'', draw_roundId = 1\<rparr>)"
  by (simp_all add: drawn_store_def closed_store_def open_rounds_def getLastRound_def
      with_draw_def draw_of_def)

lemma exec_drawn_from_empty:
  "drawn_store = exec empty_store
     [NewRound,
      Tickets (utf16 ''t1'') (IsString (utf16 ''AB123456'')) (IsString (utf16 ''1,2,3,4,5,6'')) None,
      Close, StoreResults (IsArray [utf16 ''7'', utf16 ''13''])]"
  using exec_append [of empty_store
     "[NewRound,
      Tickets (utf16 ''t1'') (IsString (utf16 ''AB123456'')) (IsString (utf16 ''1,2,3,4,5,6'')) None,
      Close]" "[StoreResults (IsArray [utf16 ''7'', utf16 ''13''])]"]
  by (simp only: exec_closed exec_drawn append.simps)

theorem single_open_round_witness:
  "length (open_rounds (exec empty_store
     [NewRound, NewRound, Close, StoreResults (IsArray []), NewRound])) \<le> 1"
  by (rule single_open_round)

theorem one_draw_per_round_witness:
  "drawn_store = exec empty_store
     [NewRound,
      Tickets (utf16 ''t1'') (IsString (utf16 ''AB123456'')) (IsString (utf16 ''1,2,3,4,5,6'')) None,
      Close, StoreResults (IsArray [utf16 ''7'', utf16 ''13''])] \<and>
   getLastRound drawn_store =
     Some (\<lparr>round_id = 1, isOpen = False\<rparr>,
           Some \<lparr>draw_id = 1, numbers = utf16 ''7,13'', draw_roundId = 1\<rparr>) \<and>
   post_store_results drawn_store (IsArray [utf16 ''1'']) = (Failed DrawAlreadyExists, drawn_store) \<and>
   length (filter (\<lambda>d. draw_roundId d = 1) (draws drawn_store)) \<le> 1"
  using exec_drawn_from_empty drawn_store_facts(2)
    one_draw_per_round [OF exec_drawn_from_empty]
  by blast

theorem new_round_idempotent_witness:
  "open_rounds open_store \<noteq> [] \<and> post_new_round open_store = (NoContent, open_store) \<and>
   length (open_rounds empty_store) \<le> 1 \<and>
   length (open_rounds (exec empty_store [NewRound, NewRound])) = 1 \<and>
   exec empty_store [NewRound, NewRound] = open_store"
proof -
  have a: "open_rounds open_store \<noteq> []"
    by (simp add: open_store_open)
  have b: "length (open_rounds empty_store) \<le> 1"
    by (simp add: open_rounds_def empty_store_def)
  have "exec empty_store [NewRound, NewRound] = exec open_store [NewRound]"
    using exec_append [of empty_store "[NewRound]" "[NewRound]"]
    by (simp only: exec_open append.simps)
  moreover have "post_new_round open_store = (NoContent, open_store)"
    using new_round_idempotent [of open_store] a by blast
  ultimately have c: "exec empty_store [NewRound, NewRound] = open_store"
    by simp
  show ?thesis
    using a b c new_round_idempotent [of open_store] new_round_idempotent [of empty_store]
    by blast
qed


theorem admission_closed_first_witness:
  "open_rounds empty_store = [] \<and>
   post_tickets empty_store (utf16 ''t1'') (IsString (utf16 ''AB123456''))
     (IsString (utf16 ''1,2,3,4,5,6'')) None = (Failed AdmissionClosed, empty_store) \<and>
   post_tickets closed_store (utf16 ''t2'') NotString NotString None
     = (Failed AdmissionClosed, closed_store)"
proof -
  have e: "open_rounds empty_store = []"
    by (simp add: open_rounds_def empty_store_def)
  show ?thesis
    using e admission_closed_first [OF e] admission_closed_first [OF closed_store_facts(1)]
    by simp
qed


lemma six_in_range:
  "\<forall>n \<in> set [Fin 1, Fin 2, Fin 3, Fin 4, Fin 5, Fin 6]. in_range n"
  by (simp add: in_range_def isInteger_def js_less_def js_greater_def)

lemma open_store_tickets: "tickets open_store = []"
  by (simp add: open_store_def)

text \<open>
  The order of the specification, \<^verbatim>\<open>personalId\<close> first, fails on an empty
  \<^verbatim>\<open>personalId\<close> sent with three numbers: the answer is the count error of the
  transform, not the issues of \<^verbatim>\<open>personalId\<close>.
\<close>

theorem validation_order_counterexample:
  "open_rounds open_store = [\<lparr>round_id = 1, isOpen = True\<rparr>] \<and>
   \<not> valid_personalId (utf16 '''') \<and>
   post_tickets open_store (utf16 ''t1'') (IsString (utf16 '''')) (IsString (utf16 ''1,2,3'')) None =
     (Failed InvalidCount, open_store) \<and>
   \<not> InvalidPersonalId InvalidCount"
  by (simp add: handler_eval number_eval open_store_def)

theorem validation_order_witness:
  "open_rounds open_store = [\<lparr>round_id = 1, isOpen = True\<rparr>] \<and>
   post_tickets open_store (utf16 ''t1'')
       (IsString (utf16 ''AB123456'')) (IsString (utf16 ''1,2,3,4,5,6'')) None =
     (TicketCreated
        \<lparr>ticket_id = utf16 ''t1'', personalId = utf16 ''AB123456'',
         numbersCsv = utf16 ''1,2,3,4,5,6'', ticket_roundId = 1, userSub = None\<rparr>,
      open_store
        \<lparr>tickets := [\<lparr>ticket_id = utf16 ''t1'', personalId = utf16 ''AB123456'',
                      numbersCsv = utf16 ''1,2,3,4,5,6'', ticket_roundId = 1,
                      userSub = None\<rparr>]\<rparr>) \<and>
   post_tickets open_store (utf16 ''t1'')
       (IsString (utf16 '''')) (IsString (utf16 ''1,2,3,4,5,6'')) None =
     (Failed (ZodError [PersonalIdEmpty, PersonalIdNotAlnum]), open_store) \<and>
   post_tickets open_store (utf16 ''t1'')
       (IsString (utf16 '''')) (IsString (utf16 ''1,2,3,4,5,5'')) None =
     (Failed DuplicateNumbers, open_store)"
proof -
  have rng: "\<not> (\<exists>n \<in> set [Fin 1, Fin 2, Fin 3, Fin 4, Fin 5, Fin 6].
               \<not> (\<exists>k. 1 \<le> k \<and> k \<le> 45 \<and> n = Fin (of_nat k)))"
    using six_in_range unfolding in_range_iff by blast
  have rng5: "\<not> (\<exists>n \<in> set [Fin 1, Fin 2, Fin 3, Fin 4, Fin 5, Fin 5].
               \<not> (\<exists>k. 1 \<le> k \<and> k \<le> 45 \<and> n = Fin (of_nat k)))"
    using six_in_range unfolding in_range_iff by simp
  have p5: "parse_numbers (utf16 ''1,2,3,4,5,5'') = [Fin 1, Fin 2, Fin 3, Fin 4, Fin 5, Fin 5]"
    by (simp add: parse_numbers_def tokens_def number_eval)
  have e: "\<not> valid_personalId (utf16 '''')"
    by (simp add: valid_personalId_def utf16_def)
  have i: "personalId_issues (IsString (utf16 '''')) = [PersonalIdEmpty, PersonalIdNotAlnum]"
    by (simp add: personalId_issues_def utf16_def)
  have csv: "join_comma (map decimal (map to_nat [Fin 1, Fin 2, Fin 3, Fin 4, Fin 5, Fin 6])) =
      utf16 ''1,2,3,4,5,6''"
    by (simp add: to_nat_def decimal.simps utf16_def)
  have a: "post_tickets open_store (utf16 ''t1'')
       (IsString (utf16 ''AB123456'')) (IsString (utf16 ''1,2,3,4,5,6'')) None =
     (TicketCreated
        \<lparr>ticket_id = utf16 ''t1'', personalId = utf16 ''AB123456'',
         numbersCsv = utf16 ''1,2,3,4,5,6'', ticket_roundId = 1, userSub = None\<rparr>,
      open_store
        \<lparr>tickets := [\<lparr>ticket_id = utf16 ''t1'', personalId = utf16 ''AB123456'',
                      numbersCsv = utf16 ''1,2,3,4,5,6'', ticket_roundId = 1,
                      userSub = None\<rparr>]\<rparr>)"
    using validation_order [OF open_store_open,
        of "utf16 ''t1''" "utf16 ''AB123456''" "utf16 ''1,2,3,4,5,6''" None] rng
    unfolding parse_six csv
    by (simp add: valid_AB open_store_tickets)
  have b: "post_tickets open_store (utf16 ''t1'')
       (IsString (utf16 '''')) (IsString (utf16 ''1,2,3,4,5,6'')) None =
     (Failed (ZodError [PersonalIdEmpty, PersonalIdNotAlnum]), open_store)"
    using validation_order [OF open_store_open,
        of "utf16 ''t1''" "utf16 ''''" "utf16 ''1,2,3,4,5,6''" None] rng e
    unfolding parse_six i
    by simp
  have c: "post_tickets open_store (utf16 ''t1'')
       (IsString (utf16 '''')) (IsString (utf16 ''1,2,3,4,5,5'')) None =
     (Failed DuplicateNumbers, open_store)"
    using validation_order [OF open_store_open,
        of "utf16 ''t1''" "utf16 ''''" "utf16 ''1,2,3,4,5,5''" None] rng5
    unfolding p5
    by simp
  show ?thesis
    using a b c open_store_open by simp
qed

text \<open>
  A token that is no number does not fail the count rule: \<^verbatim>\<open>abc\<close> converts to NaN,
  is counted as the sixth number, and fails the range rule.
\<close>

theorem non_integer_token_counterexample:
  "open_rounds open_store = [\<lparr>round_id = 1, isOpen = True\<rparr>] \<and>
   valid_personalId (utf16 ''AB123456'') \<and>
   tokens (utf16 ''1,2,3,4,5,abc'') = map utf16 [''1'', ''2'', ''3'', ''4'', ''5'', ''abc''] \<and>
   Number (utf16 ''abc'') = NaN \<and>
   post_tickets open_store (utf16 ''t1'') (IsString (utf16 ''AB123456''))
       (IsString (utf16 ''1,2,3,4,5,abc'')) None =
     (Failed InvalidRange, open_store)"
  by (simp add: handler_eval number_eval open_store_def)

theorem non_integer_token_witness:
  "utf16 ''x'' \<in> set (tokens (utf16 ''40,8,15,6,23,4,x'')) \<and>
   \<not> isInteger (Number (utf16 ''x'')) \<and>
   post_tickets open_store (utf16 ''t1'') (IsString (utf16 ''AB123456''))
       (IsString (utf16 ''40,8,15,6,23,4,x'')) None =
     (Failed InvalidRange, open_store) \<and>
   utf16 ''x'' \<in> set (tokens (utf16 ''x,2'')) \<and>
   post_tickets open_store (utf16 ''t1'') (IsString (utf16 ''AB123456''))
       (IsString (utf16 ''x,2'')) None =
     (Failed InvalidCount, open_store)"
proof -
  have t7: "tokens (utf16 ''40,8,15,6,23,4,x'') = map utf16 [''40'', ''8'', ''15'', ''6'', ''23'', ''4'', ''x'']"
    by (simp add: tokens_def trim_def is_space_def utf16_def)
  have t2: "tokens (utf16 ''x,2'') = map utf16 [''x'', ''2'']"
    by (simp add: tokens_def trim_def is_space_def utf16_def)
  have m7: "utf16 ''x'' \<in> set (tokens (utf16 ''40,8,15,6,23,4,x''))"
    unfolding t7 by simp
  have m2: "utf16 ''x'' \<in> set (tokens (utf16 ''x,2''))"
    unfolding t2 by simp
  have x: "\<not> isInteger (Number (utf16 ''x''))"
    by (simp add: number_eval isInteger_def)
  show ?thesis
    using m7 m2 x
      non_integer_token [OF open_store_open m7 x, of "utf16 ''t1''" "utf16 ''AB123456''" None]
      non_integer_token [OF open_store_open m2 x, of "utf16 ''t1''" "utf16 ''AB123456''" None]
    by (simp add: t7 t2)
qed




end
